theory Spec2Isabelle
  imports Main "HOL-Library.Sublist"
begin

section \<open>The Node adapter of graphql-http (src/use/node.ts)\<close>

text \<open>
  The adapter is one function, \<open>createHandler\<close>, which returns the asynchronous
  \<open>requestListener (req, res)\<close>. The listener works on three mutable objects of the host
  (the inbound request with its body stream, the outgoing response, the console) and calls
  one external collaborator, the protocol handler \<open>handle\<close>. The model threads these
  objects through every operation as one explicit state; a thrown or rejected value is a
  result of the operation, and a promise that never settles is the result \<open>None\<close>.
\<close>

subsection \<open>JavaScript values and \<open>JSON.stringify\<close>\<close>

text \<open>
  The values a handler can throw at the adapter. A finite number is carried as the text
  that \<open>Number::toString\<close> gives it (floating point itself is not modelled); an object
  is the list of its enumerable own properties in enumeration order. Values with cycles,
  with \<open>toJSON\<close> methods, functions and symbols are outside this fragment.
\<close>

datatype js_value =
    JUndefined
  | JNull
  | JBool bool
  | JNumber string
  | JBigInt int
  | JString string
  | JArray "js_value list"
  | JObject "(string \<times> js_value) list"

text \<open>
  What \<open>catch (err)\<close> binds: either an instance of \<open>Error\<close>, of which the code reads
  \<open>message\<close> and \<open>stack\<close> (the latter may be undefined), or any other value.
  \<open>err instanceof Error\<close> is the case distinction on this type.
\<close>

datatype thrown =
    ErrorInstance (message: string) (stack: "string option")
  | NotError js_value

text \<open>\<open>QuoteJSONString\<close> of ECMA-262, on strings of 8-bit characters.\<close>

definition hex_digit :: "nat \<Rightarrow> char" where
  "hex_digit n = ''0123456789abcdef'' ! (n mod 16)"

definition quote_char :: "char \<Rightarrow> string" where
  "quote_char c =
     (if c = CHR 0x08 then [CHR 0x5C, CHR ''b'']
      else if c = CHR 0x09 then [CHR 0x5C, CHR ''t'']
      else if c = CHR 0x0A then [CHR 0x5C, CHR ''n'']
      else if c = CHR 0x0C then [CHR 0x5C, CHR ''f'']
      else if c = CHR 0x0D then [CHR 0x5C, CHR ''r'']
      else if c = CHR 0x22 then [CHR 0x5C, CHR 0x22]
      else if c = CHR 0x5C then [CHR 0x5C, CHR 0x5C]
      else if (of_char c :: nat) < 32
        then [CHR 0x5C, CHR ''u'', CHR ''0'', CHR ''0'',
              hex_digit (of_char c div 16), hex_digit (of_char c)]
      else [c])"

definition QuoteJSONString :: "string \<Rightarrow> string" where
  "QuoteJSONString s = [CHR 0x22] @ concat (map quote_char s) @ [CHR 0x22]"

fun join :: "string list \<Rightarrow> string" where
  "join [] = []"
| "join [t] = t"
| "join (t # ts) = t @ '','' @ join ts"

text \<open>
  \<open>SerializeJSONProperty\<close> returns a text, or \<open>undefined\<close> (the property is left out of
  an object and becomes \<open>null\<close> in an array), or throws a \<open>TypeError\<close>.
\<close>

datatype json_result = JsonThrows string | JsonOmit | JsonText string

fun SerializeJSONProperty :: "js_value \<Rightarrow> json_result"
  and SerializeJSONArray :: "js_value list \<Rightarrow> string + string list"
  and SerializeJSONObject :: "(string \<times> js_value) list \<Rightarrow> string + string list"
where
  "SerializeJSONProperty JUndefined = JsonOmit"
| "SerializeJSONProperty JNull = JsonText ''null''"
| "SerializeJSONProperty (JBool b) = JsonText (if b then ''true'' else ''false'')"
| "SerializeJSONProperty (JNumber t) = JsonText t"
| "SerializeJSONProperty (JBigInt n) = JsonThrows ''Do not know how to serialize a BigInt''"
| "SerializeJSONProperty (JString s) = JsonText (QuoteJSONString s)"
| "SerializeJSONProperty (JArray vs) =
     (case SerializeJSONArray vs of
        Inl e \<Rightarrow> JsonThrows e
      | Inr ts \<Rightarrow> JsonText (''['' @ join ts @ '']''))"
| "SerializeJSONProperty (JObject kvs) =
     (case SerializeJSONObject kvs of
        Inl e \<Rightarrow> JsonThrows e
      | Inr ts \<Rightarrow> JsonText (''{'' @ join ts @ ''}''))"
| "SerializeJSONArray [] = Inr []"
| "SerializeJSONArray (v # vs) =
     (case SerializeJSONProperty v of
        JsonThrows e \<Rightarrow> Inl e
      | JsonOmit \<Rightarrow> map_sum id ((#) ''null'') (SerializeJSONArray vs)
      | JsonText t \<Rightarrow> map_sum id ((#) t) (SerializeJSONArray vs))"
| "SerializeJSONObject [] = Inr []"
| "SerializeJSONObject ((k, v) # kvs) =
     (case SerializeJSONProperty v of
        JsonThrows e \<Rightarrow> Inl e
      | JsonOmit \<Rightarrow> SerializeJSONObject kvs
      | JsonText t \<Rightarrow> map_sum id ((#) (QuoteJSONString k @ '':'' @ t)) (SerializeJSONObject kvs))"

text \<open>
  \<open>JSON.stringify value\<close>: \<open>Inl\<close> is the message of the \<open>TypeError\<close> it throws,
  \<open>Inr None\<close> is the result \<open>undefined\<close>.
\<close>

definition JSON_stringify :: "js_value \<Rightarrow> string + string option" where
  "JSON_stringify v =
     (case SerializeJSONProperty v of
        JsonThrows e \<Rightarrow> Inl e
      | JsonOmit \<Rightarrow> Inr None
      | JsonText t \<Rightarrow> Inr (Some t))"

subsection \<open>The objects of one request cycle\<close>

type_synonym http_headers = "(string \<times> string) list"

text \<open>
  One invocation of the \<open>body\<close> accessor: the local variable \<open>body\<close> its two listeners
  close over, and the state of the promise it returned.
\<close>

record subscription =
  buf :: string
  settled :: "string option"

text \<open>
  \<open>IncomingMessage\<close>: \<open>url\<close> and \<open>method\<close> (here \<open>http_method\<close>) may be
  undefined; a header is kept as one name with one text. \<open>readable\<close> holds the chunks
  the stream has not emitted yet, in arrival order, each as the text that \<open>body += chunk\<close>
  appends. The stream emits only once a \<open>data\<close> listener has put it into flowing mode,
  and emits \<open>end\<close> once, after the last chunk. A connection that is aborted before the
  end is not modelled.
\<close>

record IncomingMessage =
  url :: "string option"
  http_method :: "string option"
  headers :: http_headers
  readable :: "string list"
  flowing :: bool
  ended :: bool
  listeners :: "subscription list"

datatype stream_event = Data string | End_of_stream

record ResponseInit =
  status :: int
  statusText :: "string option"
  init_headers :: http_headers

text \<open>
  The request the handler receives. Its \<open>body\<close> field is the accessor \<open>body\<close> below,
  which a handler reaches through the step \<open>CallBody\<close>.
\<close>

record RequestDescriptor =
  rq_url :: string
  rq_method :: string
  rq_headers :: http_headers
  raw :: IncomingMessage
  rq_context :: js_value

text \<open>
  The outgoing response is the list of the calls made on it, with their arguments:
  \<open>writeHead (status, statusText, headers)\<close>, where an argument that is left out is
  \<open>None\<close>, and \<open>end (body)\<close>. A \<open>writeHead\<close> that the response refuses (a status
  outside its range, a character that a head may not hold) throws and writes nothing:
  the list holds the calls that returned.
\<close>

datatype res_call =
    WriteHead int "string option" "http_headers option"
  | End "string option"

record state =
  env :: "string \<rightharpoonup> string"
  env_reads :: "string list"
  captureStack :: "string \<Rightarrow> string option"
  refuses :: "int \<Rightarrow> string option \<Rightarrow> http_headers \<Rightarrow> thrown option"
  req :: IncomingMessage
  emitted :: "stream_event list"
  res :: "res_call list"
  console :: "(string \<times> thrown) list"
  handled :: "RequestDescriptor list"

text \<open>
  \<open>env\<close> is \<open>process.env\<close> and \<open>env_reads\<close> the names that have been read from it;
  \<open>captureStack m\<close> is the stack text the engine gives an error created with message
  \<open>m\<close>; \<open>emitted\<close> records the events the body stream has emitted, \<open>console\<close> the
  calls of \<open>console.error\<close>, \<open>handled\<close> the requests passed to the external handler.

  \<open>refuses status statusText headers\<close> is the check the response of the host makes on the
  head that line 51 hands to \<open>writeHead\<close>: the error it throws, or \<open>None\<close> when it takes
  the head. Which heads a host refuses is the host's matter, so the check is a parameter.
  The two heads the \<open>catch\<close> block writes itself (status 500, no status text, no header
  or the one JSON content type) are heads that no host refuses.
\<close>

subsection \<open>The body stream\<close>

text \<open>
  One event of the stream: the next chunk goes to every \<open>data\<close> listener
  (\<open>body += chunk\<close>), or, with no chunk left, \<open>end\<close> goes to every \<open>end\<close> listener
  (\<open>resolve(body)\<close>). A stream that is not flowing, or has ended, emits nothing.
\<close>

definition emit :: "state \<Rightarrow> state" where
  "emit s =
     (let r = req s in
      if flowing r \<and> \<not> ended r
      then (case readable r of
              c # cs \<Rightarrow>
                s\<lparr>req := r\<lparr>readable := cs,
                            listeners := map (\<lambda>l. l\<lparr>buf := buf l @ c\<rparr>) (listeners r)\<rparr>,
                  emitted := emitted s @ [Data c]\<rparr>
            | [] \<Rightarrow>
                s\<lparr>req := r\<lparr>ended := True,
                            listeners := map (\<lambda>l. l\<lparr>settled := Some (buf l)\<rparr>) (listeners r)\<rparr>,
                  emitted := emitted s @ [End_of_stream]\<rparr>)
      else s)"

text \<open>All events that are left: every chunk, then \<open>end\<close>.\<close>

definition drain :: "state \<Rightarrow> state" where
  "drain s = emit (fold (\<lambda>_. emit) (readable (req s)) s)"

text \<open>
  The accessor \<open>body: () => new Promise(...)\<close> of lines 42 to 47: a new accumulator, a new
  \<open>data\<close> listener (which puts the stream into flowing mode) and a new \<open>end\<close> listener. The
  promise returned is the one at the index the new subscription gets.
\<close>

definition body :: "state \<Rightarrow> state" where
  "body s =
     s\<lparr>req := (req s)\<lparr>listeners := listeners (req s) @ [\<lparr>buf = [], settled = None\<rparr>],
                       flowing := True\<rparr>\<rparr>"

subsection \<open>The external handler\<close>

text \<open>
  The handler is a black box. Seen from the adapter it is a sequence of steps that ends
  when its promise fulfils with \<open>[body, init]\<close>, when it throws or its promise rejects
  (\<open>await\<close> turns both into a throw at line 38), or never. On the way it may invoke the
  \<open>body\<close> accessor (\<open>CallBody\<close>), await the promise that its \<open>n\<close>-th invocation
  returned, counted from 0 (\<open>AwaitBody n\<close>, which goes on with the value of the promise),
  and leave the event loop time for one stream event (\<open>Yield\<close>). While a pending promise
  is awaited the stream emits all it has left; a promise that is still pending after that
  never resolves, and neither does the handler.
\<close>

datatype hprog =
    Resolve string ResponseInit
  | Reject thrown
  | Pending
  | CallBody hprog
  | AwaitBody nat "string \<Rightarrow> hprog"
  | Yield hprog

datatype outcome = Resolved string ResponseInit | Rejected thrown

type_synonym handler = "RequestDescriptor \<Rightarrow> hprog"

definition await_promise :: "nat \<Rightarrow> state \<Rightarrow> state" where
  "await_promise n s =
     (if settled (listeners (req s) ! n) = None then drain s else s)"

primrec run :: "hprog \<Rightarrow> state \<Rightarrow> outcome option \<times> state" where
  "run (Resolve b i) s = (Some (Resolved b i), s)"
| "run (Reject e) s = (Some (Rejected e), s)"
| "run Pending s = (None, drain s)"
| "run (CallBody p) s = run p (body s)"
| "run (Yield p) s = run p (emit s)"
| "run (AwaitBody n f) s =
     (if n < length (listeners (req s))
      then (let s' = await_promise n s in
            case settled (listeners (req s') ! n) of
              Some v \<Rightarrow> run (f v) s'
            | None \<Rightarrow> (None, s'))
      else (None, s))"

subsection \<open>The request listener\<close>

text \<open>JavaScript's \<open>!x\<close> on a value that is a string or undefined.\<close>

definition falsy :: "string option \<Rightarrow> bool" where
  "falsy x = (case x of None \<Rightarrow> True | Some t \<Rightarrow> t = [])"

definition new_Error :: "state \<Rightarrow> string \<Rightarrow> thrown" where
  "new_Error s m = ErrorInstance m (captureStack s m)"

text \<open>The object literal of lines 38 to 50.\<close>

definition descriptor :: "IncomingMessage \<Rightarrow> string \<Rightarrow> string \<Rightarrow> RequestDescriptor" where
  "descriptor r u m =
     \<lparr>rq_url = u, rq_method = m, rq_headers = headers r, raw = r, rq_context = JUndefined\<rparr>"

text \<open>
  The \<open>try\<close> block, lines 32 to 51: \<open>Some (Inl err)\<close> when it throws \<open>err\<close>,
  \<open>Some (Inr ())\<close> when it completes, \<open>None\<close> when the awaited promise never settles.
  It throws when the URL or the method is missing, when the handler throws or rejects,
  and when \<open>writeHead\<close> refuses the head of the handler in line 51.
\<close>

definition try_block :: "handler \<Rightarrow> state \<Rightarrow> (thrown + unit) option \<times> state" where
  "try_block handle s =
     (case url (req s) of
        None \<Rightarrow> (Some (Inl (new_Error s ''Missing request URL'')), s)
      | Some u \<Rightarrow>
          if u = [] then (Some (Inl (new_Error s ''Missing request URL'')), s)
          else (case http_method (req s) of
             None \<Rightarrow> (Some (Inl (new_Error s ''Missing request method'')), s)
           | Some m \<Rightarrow>
               if m = [] then (Some (Inl (new_Error s ''Missing request method'')), s)
               else (let d = descriptor (req s) u m in
                     case run (handle d) (s\<lparr>handled := handled s @ [d]\<rparr>) of
                       (None, s1) \<Rightarrow> (None, s1)
                     | (Some (Rejected e), s1) \<Rightarrow> (Some (Inl e), s1)
                     | (Some (Resolved b i), s1) \<Rightarrow>
                         (case refuses s1 (status i) (statusText i) (init_headers i) of
                            Some e \<Rightarrow> (Some (Inl e), s1)
                          | None \<Rightarrow>
                              (Some (Inr ()),
                               s1\<lparr>res := res s1 @
                                     [WriteHead (status i) (statusText i) (Some (init_headers i)),
                                      End (Some b)]\<rparr>)))))"

text \<open>How the promise of the listener ends.\<close>

datatype settlement = Fulfilled | RejectedWith thrown | Unsettled

definition error_payload :: "thrown \<Rightarrow> js_value" where
  "error_payload err =
     (case err of
        ErrorInstance m st \<Rightarrow>
          JObject [(''message'', JString m),
                   (''stack'', (case st of None \<Rightarrow> JUndefined | Some t \<Rightarrow> JString t))]
      | NotError v \<Rightarrow> v)"

text \<open>
  The \<open>catch\<close> block, lines 52 to 78. In \<open>res.writeHead(...).end(JSON.stringify(...))\<close>
  the call of \<open>writeHead\<close> is evaluated before the argument of \<open>end\<close>, so an exception
  of \<open>JSON.stringify\<close> leaves the head written and the response open, and, thrown inside
  the \<open>catch\<close> block, rejects the promise of the listener.
\<close>

definition catch_block :: "bool \<Rightarrow> thrown \<Rightarrow> state \<Rightarrow> settlement \<times> state" where
  "catch_block isProd err s =
     (let s1 = s\<lparr>console := console s @
                  [(''Internal error occurred during request handling. '' @
                    ''Please check your implementation.'', err)]\<rparr>
      in if isProd then (Fulfilled, s1\<lparr>res := res s1 @ [WriteHead 500 None None, End None]\<rparr>)
         else (let s2 = s1\<lparr>res := res s1 @
                          [WriteHead 500 None
                             (Some [(''content-type'', ''application/json; charset=utf-8'')])]\<rparr>
               in case JSON_stringify (JObject [(''errors'', JArray [error_payload err])]) of
                    Inl e \<Rightarrow> (RejectedWith (new_Error s2 e), s2)
                  | Inr t \<Rightarrow> (Fulfilled, s2\<lparr>res := res s2 @ [End t]\<rparr>)))"

definition requestListener :: "bool \<Rightarrow> handler \<Rightarrow> state \<Rightarrow> settlement \<times> state" where
  "requestListener isProd handle s =
     (case try_block handle s of
        (None, s1) \<Rightarrow> (Unsettled, s1)
      | (Some (Inr _), s1) \<Rightarrow> (Fulfilled, s1)
      | (Some (Inl err), s1) \<Rightarrow> catch_block isProd err s1)"


subsection \<open>Auxiliary notions for the statements\<close>

text \<open>A handler that, on some path, invokes the \<open>body\<close> accessor.\<close>

inductive invokes_body :: "hprog \<Rightarrow> bool" where
  "invokes_body (CallBody p)"
| "invokes_body p \<Longrightarrow> invokes_body (Yield p)"
| "invokes_body (f v) \<Longrightarrow> invokes_body (AwaitBody n f)"


text \<open>
  The promise of subscription \<open>k\<close> is on its way to the value \<open>c\<close>: pending with
  the accumulator and the chunks still to come making up \<open>c\<close> while the stream has not
  ended, resolved with \<open>c\<close> once it has. And: subscription \<open>k\<close> came after the end, so
  that its promise stays pending.
\<close>

definition accumulates :: "nat \<Rightarrow> string \<Rightarrow> state \<Rightarrow> bool" where
  "accumulates k c s =
     (k < length (listeners (req s)) \<and>
      settled (listeners (req s) ! k) = (if ended (req s) then Some c else None) \<and>
      (ended (req s) \<or> buf (listeners (req s) ! k) @ concat (readable (req s)) = c))"

definition unheard :: "nat \<Rightarrow> state \<Rightarrow> bool" where
  "unheard k s =
     (k < length (listeners (req s)) \<and> ended (req s) \<and> settled (listeners (req s) ! k) = None)"


text \<open>
  A host in the manner of Node, for the examples: its \<open>writeHead\<close> refuses a status
  outside 100 to 999 (the message of its error is abridged, and it has no stack text).
\<close>

definition node_refuses :: "int \<Rightarrow> string option \<Rightarrow> http_headers \<Rightarrow> thrown option" where
  "node_refuses st t hs =
     (if 100 \<le> st \<and> st \<le> 999 then None
      else Some (ErrorInstance ''Invalid status code'' None))"

text \<open>
  A request as the host hands it to the listener (paused, nothing emitted, no listener),
  and the state in which a cycle on it starts.
\<close>

definition fresh_request ::
  "string option \<Rightarrow> string option \<Rightarrow> http_headers \<Rightarrow> string list \<Rightarrow> IncomingMessage" where
  "fresh_request u m hs cs =
     \<lparr>url = u, http_method = m, headers = hs, readable = cs,
      flowing = False, ended = False, listeners = []\<rparr>"

definition cycle_start :: "IncomingMessage \<Rightarrow> state" where
  "cycle_start r =
     \<lparr>env = Map.empty, env_reads = [], captureStack = (\<lambda>m. Some (''Error: '' @ m)),
      refuses = node_refuses, req = r,
      emitted = [], res = [], console = [], handled = []\<rparr>"

text \<open>
  A POST to \<open>/graphql\<close> whose body arrives in two chunks, and the head of a 200
  response.
\<close>

definition graphql_post :: IncomingMessage where
  "graphql_post =
     fresh_request (Some ''/graphql'') (Some ''POST'') [(''content-type'', ''application/json'')]
       [''{query:'', ''{__typename}}'']"

definition ok_init :: ResponseInit where
  "ok_init = \<lparr>status = 200, statusText = None,
              init_headers = [(''content-type'', ''application/json'')]\<rparr>"

text \<open>A head with a status that Node refuses.\<close>

definition bad_init :: ResponseInit where
  "bad_init = \<lparr>status = 1000, statusText = None, init_headers = []\<rparr>"

text \<open>
  Handlers for the examples: one that does the same for every request, and the end of a
  handler that answers 200 with the text it has read.
\<close>

definition handler_of :: "hprog \<Rightarrow> handler" where
  "handler_of p d = p"

definition respond_with :: "string \<Rightarrow> hprog" where
  "respond_with v = Resolve v ok_init"

section \<open>What the stream operations and the handler leave alone\<close>

lemma emit_frame [simp]:
  "res (emit s) = res s" "console (emit s) = console s" "handled (emit s) = handled s"
  "env (emit s) = env s" "captureStack (emit s) = captureStack s"
  "refuses (emit s) = refuses s" "env_reads (emit s) = env_reads s"
  by (simp_all add: emit_def Let_def split: list.split)

lemma emit_times_frame [simp]:
  "res (fold (\<lambda>_. emit) cs s) = res s" "console (fold (\<lambda>_. emit) cs s) = console s"
  "handled (fold (\<lambda>_. emit) cs s) = handled s" "env (fold (\<lambda>_. emit) cs s) = env s"
  "captureStack (fold (\<lambda>_. emit) cs s) = captureStack s"
  "refuses (fold (\<lambda>_. emit) cs s) = refuses s" "env_reads (fold (\<lambda>_. emit) cs s) = env_reads s"
  by (induction cs arbitrary: s) simp_all

lemma drain_frame [simp]:
  "res (drain s) = res s" "console (drain s) = console s" "handled (drain s) = handled s"
  "env (drain s) = env s" "captureStack (drain s) = captureStack s"
  "refuses (drain s) = refuses s" "env_reads (drain s) = env_reads s"
  by (simp_all add: drain_def)

lemma body_frame [simp]:
  "res (body s) = res s" "console (body s) = console s" "handled (body s) = handled s"
  "env (body s) = env s" "captureStack (body s) = captureStack s"
  "refuses (body s) = refuses s" "env_reads (body s) = env_reads s"
  by (simp_all add: body_def)

lemma await_promise_frame [simp]:
  "res (await_promise n s) = res s" "console (await_promise n s) = console s"
  "handled (await_promise n s) = handled s" "env (await_promise n s) = env s"
  "captureStack (await_promise n s) = captureStack s"
  "refuses (await_promise n s) = refuses s" "env_reads (await_promise n s) = env_reads s"
  by (simp_all add: await_promise_def)

lemma run_frame:
  "run p s = (r, s') \<Longrightarrow>
     res s' = res s \<and> console s' = console s \<and> handled s' = handled s \<and>
     env s' = env s \<and> captureStack s' = captureStack s \<and>
     refuses s' = refuses s \<and> env_reads s' = env_reads s"
proof (induction p arbitrary: s)
  case (AwaitBody n f)
  show ?case
  proof (cases "n < length (listeners (req s))")
    case False
    with AwaitBody.prems show ?thesis by simp
  next
    case True
    show ?thesis
    proof (cases "settled (listeners (req (await_promise n s)) ! n)")
      case None
      with True AwaitBody.prems show ?thesis by (auto simp: Let_def)
    next
      case (Some v)
      with True AwaitBody.prems have "run (f v) (await_promise n s) = (r, s')"
        by (simp add: Let_def)
      from AwaitBody.IH [OF _ this] show ?thesis by simp
    qed
  qed
qed auto

text \<open>Updates of \<open>handled\<close> and \<open>env\<close> commute with every operation.\<close>

lemma emit_handled_update: "emit (s\<lparr>handled := h\<rparr>) = (emit s)\<lparr>handled := h\<rparr>"
  by (simp add: emit_def Let_def split: list.split)



lemma emit_times_handled_update:
  "fold (\<lambda>_. emit) cs (s\<lparr>handled := h\<rparr>) = (fold (\<lambda>_. emit) cs s)\<lparr>handled := h\<rparr>"
  by (induction cs arbitrary: s) (simp_all add: emit_handled_update)


lemma drain_handled_update: "drain (s\<lparr>handled := h\<rparr>) = (drain s)\<lparr>handled := h\<rparr>"
  by (simp add: drain_def emit_times_handled_update emit_handled_update)


lemma body_handled_update: "body (s\<lparr>handled := h\<rparr>) = (body s)\<lparr>handled := h\<rparr>"
  by (simp add: body_def)


lemma await_promise_handled_update:
  "await_promise n (s\<lparr>handled := h\<rparr>) = (await_promise n s)\<lparr>handled := h\<rparr>"
  by (simp add: await_promise_def drain_handled_update)


lemma run_handled_update:
  "run p (s\<lparr>handled := h\<rparr>) = (fst (run p s), (snd (run p s))\<lparr>handled := h\<rparr>)"
  by (induction p arbitrary: s)
     (simp_all add: drain_handled_update body_handled_update emit_handled_update
        await_promise_handled_update Let_def split: option.split)





section \<open>The two blocks of the listener\<close>

lemma handler_of_apply [simp]: "handler_of p d = p"
  by (simp add: handler_of_def)

lemma respond_with_apply [simp]: "respond_with v = Resolve v ok_init"
  by (simp add: respond_with_def)

lemma run_frame_snd [simp]:
  "res (snd (run p s)) = res s" "console (snd (run p s)) = console s"
  "handled (snd (run p s)) = handled s" "env (snd (run p s)) = env s"
  "captureStack (snd (run p s)) = captureStack s"
  "refuses (snd (run p s)) = refuses s" "env_reads (snd (run p s)) = env_reads s"
  using run_frame [of p s "fst (run p s)" "snd (run p s)"] by simp_all

lemma try_block_present:
  assumes "url (req s) = Some u" "u \<noteq> []" "http_method (req s) = Some m" "m \<noteq> []"
  shows "try_block handle s =
    (case fst (run (handle (descriptor (req s) u m)) s) of
       None \<Rightarrow> (None, (snd (run (handle (descriptor (req s) u m)) s))
                  \<lparr>handled := handled s @ [descriptor (req s) u m]\<rparr>)
     | Some (Rejected e) \<Rightarrow>
         (Some (Inl e), (snd (run (handle (descriptor (req s) u m)) s))
                  \<lparr>handled := handled s @ [descriptor (req s) u m]\<rparr>)
     | Some (Resolved b i) \<Rightarrow>
         (case refuses s (status i) (statusText i) (init_headers i) of
            Some e \<Rightarrow>
              (Some (Inl e), (snd (run (handle (descriptor (req s) u m)) s))
                  \<lparr>handled := handled s @ [descriptor (req s) u m]\<rparr>)
          | None \<Rightarrow>
              (Some (Inr ()), (snd (run (handle (descriptor (req s) u m)) s))
                  \<lparr>res := res s @ [WriteHead (status i) (statusText i) (Some (init_headers i)),
                                    End (Some b)],
                    handled := handled s @ [descriptor (req s) u m]\<rparr>)))"
  using assms
  by (simp add: try_block_def run_handled_update Let_def split: option.split outcome.split)

lemma try_block_absent:
  assumes "falsy (url (req s)) \<or> falsy (http_method (req s))"
  shows "\<exists>msg. try_block handle s = (Some (Inl (ErrorInstance msg (captureStack s msg))), s)"
  using assms
  by (auto simp: try_block_def falsy_def new_Error_def split: option.splits)

text \<open>The faults of the \<open>try\<close> block, all of them.\<close>

lemma try_block_throws:
  "fst (try_block handle s) = Some (Inl err) \<longleftrightarrow>
     falsy (url (req s)) \<and> err = new_Error s ''Missing request URL'' \<or>
     \<not> falsy (url (req s)) \<and> falsy (http_method (req s)) \<and>
       err = new_Error s ''Missing request method'' \<or>
     (\<exists>u m. url (req s) = Some u \<and> u \<noteq> [] \<and> http_method (req s) = Some m \<and> m \<noteq> [] \<and>
        (fst (run (handle (descriptor (req s) u m)) s) = Some (Rejected err) \<or>
         (\<exists>b i. fst (run (handle (descriptor (req s) u m)) s) = Some (Resolved b i) \<and>
            refuses s (status i) (statusText i) (init_headers i) = Some err)))"
proof (cases "falsy (url (req s)) \<or> falsy (http_method (req s))")
  case True
  then show ?thesis
    by (auto simp: try_block_def falsy_def split: option.splits)
next
  case False
  then obtain u m where um: "url (req s) = Some u" "u \<noteq> []" "http_method (req s) = Some m" "m \<noteq> []"
    by (auto simp: falsy_def split: option.splits)
  with False show ?thesis
    by (auto simp: try_block_present [OF um] falsy_def split: option.splits outcome.splits)
qed

lemma stringify_Error:
  "JSON_stringify (JObject [(''errors'', JArray [error_payload (ErrorInstance m st)])]) =
     Inr (Some (''{'' @ QuoteJSONString ''errors'' @ '':[{'' @
                QuoteJSONString ''message'' @ '':'' @ QuoteJSONString m @
                (case st of None \<Rightarrow> [] | Some t \<Rightarrow> '','' @ QuoteJSONString ''stack'' @ '':'' @ QuoteJSONString t)
                @ ''}]}''))"
  by (cases st) (simp_all add: JSON_stringify_def error_payload_def)

lemma catch_block_handled [simp]:
  "handled (snd (catch_block isProd err s)) = handled s"
  by (simp add: catch_block_def Let_def split: sum.split)

lemma requestListener_handled:
  "handled (snd (requestListener isProd handle s)) = handled (snd (try_block handle s))"
  by (simp add: requestListener_def split: prod.split option.split sum.split)

text \<open>
  The diagnostic response to a fault of the handler, for every fault that
  \<open>JSON.stringify\<close> accepts.
\<close>

lemma diagnostic_response:
  assumes "url (req s) = Some u" and "u \<noteq> []" and "http_method (req s) = Some m" and "m \<noteq> []"
    and "fst (run (handle (descriptor (req s) u m)) s) = Some (Rejected err)"
    and "JSON_stringify (JObject [(''errors'', JArray [error_payload err])]) = Inr t"
  shows "fst (requestListener False handle s) = Fulfilled \<and>
         res (snd (requestListener False handle s)) =
           res s @ [WriteHead 500 None (Some [(''content-type'', ''application/json; charset=utf-8'')]),
                    End t]"
  using assms by (simp add: requestListener_def try_block_present catch_block_def Let_def)

lemma diagnostic_response_of_Error:
  assumes "url (req s) = Some u" and "u \<noteq> []" and "http_method (req s) = Some m" and "m \<noteq> []"
    and "fst (run (handle (descriptor (req s) u m)) s) = Some (Rejected (ErrorInstance msg (Some st)))"
  shows "res (snd (requestListener False handle s)) =
           res s @ [WriteHead 500 None (Some [(''content-type'', ''application/json; charset=utf-8'')]),
                    End (Some (''{'' @ QuoteJSONString ''errors'' @ '':[{'' @
                                 QuoteJSONString ''message'' @ '':'' @ QuoteJSONString msg @ '','' @
                                 QuoteJSONString ''stack'' @ '':'' @ QuoteJSONString st @ ''}]}''))]"
  using diagnostic_response [where handle = handle and s = s and u = u and m = m,
      OF assms stringify_Error [of msg "Some st"]]
  by simp

lemma requestListener_alt:
  "requestListener isProd handle s =
     (case fst (try_block handle s) of
        None \<Rightarrow> (Unsettled, snd (try_block handle s))
      | Some (Inr _) \<Rightarrow> (Fulfilled, snd (try_block handle s))
      | Some (Inl err) \<Rightarrow> catch_block isProd err (snd (try_block handle s)))"
  by (cases "try_block handle s") (simp add: requestListener_def split: option.split sum.split)



lemma catch_block_env_reads [simp]:
  "env_reads (snd (catch_block isProd err s)) = env_reads s"
  by (simp add: catch_block_def Let_def split: sum.split)



text \<open>The listener rejects in one way only.\<close>

lemma rejection_only_from_stringify:
  assumes "fst (requestListener isProd handle s) = RejectedWith e"
  shows "\<not> isProd \<and>
         (\<exists>err msg. fst (try_block handle s) = Some (Inl err) \<and>
            JSON_stringify (JObject [(''errors'', JArray [error_payload err])]) = Inl msg)"
  using assms
  by (auto simp: requestListener_alt catch_block_def Let_def
      split: option.splits sum.splits if_splits)

lemma catch_block_stream [simp]:
  "req (snd (catch_block isProd err s)) = req s"
  "emitted (snd (catch_block isProd err s)) = emitted s"
  by (simp_all add: catch_block_def Let_def split: sum.split)

lemma requestListener_stream:
  "req (snd (requestListener isProd handle s)) = req (snd (try_block handle s))"
  "emitted (snd (requestListener isProd handle s)) = emitted (snd (try_block handle s))"
  by (simp_all add: requestListener_def split: prod.split option.split sum.split)

lemma try_block_present_stream:
  assumes "url (req s) = Some u" "u \<noteq> []" "http_method (req s) = Some m" "m \<noteq> []"
  shows "req (snd (try_block handle s)) = req (snd (run (handle (descriptor (req s) u m)) s))"
    and "emitted (snd (try_block handle s)) = emitted (snd (run (handle (descriptor (req s) u m)) s))"
  by (simp_all add: try_block_present [OF assms] split: option.split outcome.split)

lemma present_fields:
  assumes "\<not> (falsy (url (req s)) \<or> falsy (http_method (req s)))"
  obtains u m where "url (req s) = Some u" "u \<noteq> []" "http_method (req s) = Some m" "m \<noteq> []"
  using assms by (auto simp: falsy_def split: option.splits)



section \<open>Invariants of the body stream\<close>

text \<open>What \<open>emit\<close> and \<open>body\<close> preserve, every run of a handler preserves.\<close>

lemma run_preserves:
  assumes emit: "\<And>t. P t \<Longrightarrow> P (emit t)" and body: "\<And>t. P t \<Longrightarrow> P (body t)"
  shows "P s \<Longrightarrow> P (snd (run p s))"
proof (induction p arbitrary: s)
  case Pending
  have "P (fold (\<lambda>_. emit) cs t)" if "P t" for cs :: "string list" and t
    using that by (induction cs arbitrary: t) (simp_all add: emit)
  with Pending show ?case by (simp add: drain_def emit)
next
  case (AwaitBody n f)
  have fold: "P (fold (\<lambda>_. emit) cs t)" if "P t" for cs :: "string list" and t
    using that by (induction cs arbitrary: t) (simp_all add: emit)
  from AwaitBody.prems have "P (await_promise n s)"
    by (simp add: await_promise_def drain_def emit fold)
  then show ?case
    using AwaitBody.IH AwaitBody.prems by (simp add: Let_def split: option.split)
qed (simp_all add: emit body)




lemma emit_accumulates: "accumulates k c s \<Longrightarrow> accumulates k c (emit s)"
  by (auto simp: accumulates_def emit_def Let_def split: list.split)

lemma body_accumulates: "accumulates k c s \<Longrightarrow> accumulates k c (body s)"
  by (auto simp: accumulates_def body_def nth_append)

lemma run_accumulates: "accumulates k c s \<Longrightarrow> accumulates k c (snd (run p s))"
  by (rule run_preserves [where P = "accumulates k c"]) (simp_all add: emit_accumulates body_accumulates)

lemma emit_unheard: "unheard k s \<Longrightarrow> unheard k (emit s)"
  by (simp add: unheard_def emit_def)

lemma body_unheard: "unheard k s \<Longrightarrow> unheard k (body s)"
  by (auto simp: unheard_def body_def nth_append)

lemma run_unheard: "unheard k s \<Longrightarrow> unheard k (snd (run p s))"
  by (rule run_preserves [where P = "unheard k"]) (simp_all add: emit_unheard body_unheard)

lemma body_new_listener:
  "listeners (req (body s)) = listeners (req s) @ [\<lparr>buf = [], settled = None\<rparr>]"
  "ended (req (body s)) = ended (req s)" "readable (req (body s)) = readable (req s)"
  "flowing (req (body s))"
  by (simp_all add: body_def)

lemma body_starts:
  "\<not> ended (req s) \<Longrightarrow> accumulates (length (listeners (req s))) (concat (readable (req s))) (body s)"
  "ended (req s) \<Longrightarrow> unheard (length (listeners (req s))) (body s)"
  by (simp_all add: accumulates_def unheard_def body_def)

lemma emit_all_chunks:
  "flowing (req s) \<Longrightarrow> \<not> ended (req s) \<Longrightarrow> readable (req s) = cs \<Longrightarrow>
     readable (req (fold (\<lambda>_. emit) cs s)) = [] \<and> flowing (req (fold (\<lambda>_. emit) cs s)) \<and>
     \<not> ended (req (fold (\<lambda>_. emit) cs s))"
proof (induction cs arbitrary: s)
  case Nil
  then show ?case by simp
next
  case (Cons c cs)
  from Cons.prems have "flowing (req (emit s))" "\<not> ended (req (emit s))" "readable (req (emit s)) = cs"
    by (simp_all add: emit_def Let_def)
  from Cons.IH [OF this] show ?case by simp
qed

lemma drain_ends: "flowing (req s) \<Longrightarrow> \<not> ended (req s) \<Longrightarrow> ended (req (drain s))"
  using emit_all_chunks [of s "readable (req s)"] by (simp add: drain_def emit_def Let_def)

lemma drain_accumulates: "accumulates k c s \<Longrightarrow> accumulates k c (drain s)"
  using run_accumulates [of k c s Pending] by simp

lemma emit_paused: "\<not> flowing (req s) \<Longrightarrow> emit s = s"
  by (simp add: emit_def)

lemma drain_paused: "\<not> flowing (req s) \<Longrightarrow> drain s = s"
proof -
  assume p: "\<not> flowing (req s)"
  have "fold (\<lambda>_. emit) cs s = s" for cs :: "string list"
    by (induction cs) (simp_all add: emit_paused [OF p])
  then show ?thesis by (simp add: drain_def emit_paused [OF p])
qed

lemma run_without_body:
  "\<not> invokes_body p \<Longrightarrow> \<not> flowing (req s) \<Longrightarrow> snd (run p s) = s"
proof (induction p arbitrary: s)
  case (AwaitBody n f)
  from AwaitBody.prems(1) have nb: "\<not> invokes_body (f v)" for v
    by (auto intro: invokes_body.intros)
  from AwaitBody.prems(2) have "await_promise n s = s"
    by (simp add: await_promise_def drain_paused)
  with AwaitBody.IH [OF _ nb AwaitBody.prems(2)] show ?case
    by (simp add: Let_def split: option.split)
next
  case (Yield p)
  from Yield.prems(1) have "\<not> invokes_body p"
    by (auto intro: invokes_body.intros)
  from Yield.IH [OF this] Yield.prems(2) show ?case
    by (simp add: emit_paused)
next
  case (CallBody p)
  from CallBody.prems(1) show ?case
    by (simp add: invokes_body.intros)
qed (simp_all add: drain_paused)

lemma emit_listeners_length: "length (listeners (req (emit s))) = length (listeners (req s))"
  by (simp add: emit_def Let_def split: list.split)

lemma run_listeners_mono:
  "n \<le> length (listeners (req s)) \<Longrightarrow> n \<le> length (listeners (req (snd (run p s))))"
  by (rule run_preserves [where P = "\<lambda>t. n \<le> length (listeners (req t))"])
     (simp_all add: emit_listeners_length body_new_listener)

lemma run_paused:
  "\<not> flowing (req s) \<Longrightarrow>
     snd (run p s) = s \<or> length (listeners (req s)) < length (listeners (req (snd (run p s))))"
proof (induction p arbitrary: s)
  case (CallBody p)
  have "Suc (length (listeners (req s))) \<le> length (listeners (req (snd (run p (body s)))))"
    by (rule run_listeners_mono) (simp add: body_new_listener)
  then show ?case by simp
next
  case (AwaitBody n f)
  then have "await_promise n s = s"
    by (simp add: await_promise_def drain_paused)
  with AwaitBody show ?case
    by (simp add: Let_def split: option.split)
next
  case (Yield p)
  then show ?case by (simp add: emit_paused)
qed (simp_all add: drain_paused)







lemma try_block_env_reads [simp]: "env_reads (snd (try_block handle s)) = env_reads s"
proof (cases "falsy (url (req s)) \<or> falsy (http_method (req s))")
  case True
  from try_block_absent [OF True, of handle] obtain msg where
    "try_block handle s = (Some (Inl (ErrorInstance msg (captureStack s msg))), s)" ..
  then show ?thesis by simp
next
  case False
  then obtain u m where um: "url (req s) = Some u" "u \<noteq> []" "http_method (req s) = Some m" "m \<noteq> []"
    by (rule present_fields)
  show ?thesis
    by (simp add: try_block_present [OF um] split: option.split outcome.split)
qed


section \<open>The claims\<close>

subsection \<open>Success path\<close>

text \<open>
  C1, as stated (whatever head a handler fulfils with is written), fails for a head that
  the response refuses: line 51 throws inside the \<open>try\<close> block and the \<open>catch\<close> block
  answers. A handler fulfils with status 1000 and the body \<open>x\<close>; the response written
  is the bare 500 of the production configuration.
\<close>

theorem refused_head_is_not_written:
  "fst (run (handler_of (Resolve ''x'' bad_init) (descriptor graphql_post ''/graphql'' ''POST''))
          (cycle_start graphql_post)) = Some (Resolved ''x'' bad_init) \<and>
   res (snd (requestListener True (handler_of (Resolve ''x'' bad_init)) (cycle_start graphql_post))) =
     [WriteHead 500 None None, End None]"
  by (simp add: requestListener_def try_block_def catch_block_def cycle_start_def node_refuses_def
      graphql_post_def fresh_request_def bad_init_def)

text \<open>
  C1, amended: for a request with a non-empty URL and a non-empty method, a handler whose
  promise fulfils with \<open>(b, i)\<close> and a response that takes the head \<open>i\<close>, the listener
  fulfils and the calls it makes on the response are exactly
  \<open>writeHead (status i, statusText i, headers i)\<close> and \<open>end b\<close>.
\<close>

theorem handler_result_is_written:
  assumes "url (req s) = Some u" and "u \<noteq> []" and "http_method (req s) = Some m" and "m \<noteq> []"
    and "fst (run (handle (descriptor (req s) u m)) s) = Some (Resolved b i)"
    and "refuses s (status i) (statusText i) (init_headers i) = None"
  shows "fst (requestListener isProd handle s) = Fulfilled \<and>
         res (snd (requestListener isProd handle s)) =
           res s @ [WriteHead (status i) (statusText i) (Some (init_headers i)), End (Some b)]"
  using assms by (simp add: requestListener_def try_block_present)

theorem handler_result_is_written_witness:
  "res (snd (requestListener False (handler_of (Resolve ''{data:1}'' ok_init)) (cycle_start graphql_post))) =
     [WriteHead 200 None (Some [(''content-type'', ''application/json'')]), End (Some ''{data:1}'')]"
  using handler_result_is_written [of "cycle_start graphql_post" "''/graphql''" "''POST''"
      "handler_of (Resolve ''{data:1}'' ok_init)" "''{data:1}''" ok_init False]
  by (simp add: cycle_start_def node_refuses_def graphql_post_def fresh_request_def ok_init_def)

subsection \<open>Containment of faults\<close>

text \<open>
  C2: the promise of the listener should never reject. In non-production configuration,
  with a handler that rejects with the BigInt \<open>1n\<close>, \<open>JSON.stringify\<close> throws inside
  the \<open>catch\<close> block and the promise of the listener rejects with that \<open>TypeError\<close>.
\<close>

theorem unserializable_fault_rejects:
  "fst (requestListener False (handler_of (Reject (NotError (JBigInt 1)))) (cycle_start graphql_post)) =
     RejectedWith (ErrorInstance ''Do not know how to serialize a BigInt''
                     (Some ''Error: Do not know how to serialize a BigInt''))"
  by (simp add: requestListener_def try_block_def catch_block_def JSON_stringify_def
      error_payload_def new_Error_def cycle_start_def node_refuses_def graphql_post_def fresh_request_def)

subsection \<open>The body accessor\<close>

text \<open>
  C3, as stated (every invocation of \<open>body\<close> in one cycle resolves to the concatenation
  of all chunks, from one memoized promise and one subscription), fails: a handler that
  invokes \<open>body\<close>, lets the first chunk pass and invokes \<open>body\<close> again gets from the
  second promise the second chunk only, and the request then carries two subscriptions.
\<close>

theorem second_body_call_misses_chunks:
  "res (snd (requestListener False
        (handler_of (CallBody (Yield (CallBody (AwaitBody 1 respond_with)))))
        (cycle_start graphql_post))) =
     [WriteHead 200 None (Some [(''content-type'', ''application/json'')]),
      End (Some ''{__typename}}'')] \<and>
   length (listeners (req (snd (requestListener False
        (handler_of (CallBody (Yield (CallBody (AwaitBody 1 respond_with)))))
        (cycle_start graphql_post))))) = 2"
  by (simp add: requestListener_def try_block_def descriptor_def cycle_start_def node_refuses_def graphql_post_def
      fresh_request_def ok_init_def body_def emit_def drain_def await_promise_def)

text \<open>
  C3, amended: every invocation of \<open>body\<close> adds a subscription of its own with an empty
  accumulator and a pending promise. Whatever the handler does afterwards, that promise is
  resolved exactly when the stream has ended after the invocation, and then with the
  concatenation, in arrival order, of the chunks the stream had not yet emitted at the
  invocation (all chunks, for an invocation before the first event); after an invocation
  on an ended stream it stays pending. Awaiting it right after an invocation on a stream
  that has not ended drains the stream and yields that concatenation.
\<close>

theorem body_promise_value:
  "listeners (req (body s)) = listeners (req s) @ [\<lparr>buf = [], settled = None\<rparr>] \<and>
   settled (listeners (req (snd (run p (body s)))) ! length (listeners (req s))) =
     (if ended (req (snd (run p (body s)))) \<and> \<not> ended (req s)
      then Some (concat (readable (req s))) else None) \<and>
   (\<not> ended (req s) \<longrightarrow>
      run (CallBody (AwaitBody (length (listeners (req s))) f)) s =
        run (f (concat (readable (req s)))) (drain (body s)))"
proof (intro conjI impI)
  show "listeners (req (body s)) = listeners (req s) @ [\<lparr>buf = [], settled = None\<rparr>]"
    by (rule body_new_listener)
next
  show "settled (listeners (req (snd (run p (body s)))) ! length (listeners (req s))) =
     (if ended (req (snd (run p (body s)))) \<and> \<not> ended (req s)
      then Some (concat (readable (req s))) else None)"
  proof (cases "ended (req s)")
    case True
    from run_unheard [OF body_starts(2) [OF True]] True show ?thesis
      by (simp add: unheard_def)
  next
    case False
    from run_accumulates [OF body_starts(1) [OF False]] False show ?thesis
      by (simp add: accumulates_def)
  qed
next
  assume live: "\<not> ended (req s)"
  let ?k = "length (listeners (req s))"
  have acc: "accumulates ?k (concat (readable (req s))) (drain (body s))"
    by (rule drain_accumulates [OF body_starts(1) [OF live]])
  have "ended (req (drain (body s)))"
    by (rule drain_ends) (simp_all add: body_new_listener live)
  with acc have val: "settled (listeners (req (drain (body s))) ! ?k) = Some (concat (readable (req s)))"
    by (simp add: accumulates_def)
  have "await_promise ?k (body s) = drain (body s)"
    by (simp add: await_promise_def body_new_listener)
  with val show "run (CallBody (AwaitBody ?k f)) s =
        run (f (concat (readable (req s)))) (drain (body s))"
    by (simp add: body_new_listener)
qed

theorem body_promise_value_witness:
  "fst (run (CallBody (AwaitBody 0 respond_with)) (cycle_start graphql_post)) =
     Some (Resolved ''{query:{__typename}}'' ok_init)"
proof -
  have live: "\<not> ended (req (cycle_start graphql_post))"
    and first: "length (listeners (req (cycle_start graphql_post))) = 0"
    and chunks: "concat (readable (req (cycle_start graphql_post))) = ''{query:{__typename}}''"
    by (simp_all add: cycle_start_def node_refuses_def graphql_post_def fresh_request_def)
  from body_promise_value [of "cycle_start graphql_post" Pending respond_with] live
  have "run (CallBody (AwaitBody (length (listeners (req (cycle_start graphql_post))))
                respond_with)) (cycle_start graphql_post) =
        run (respond_with (concat (readable (req (cycle_start graphql_post)))))
          (drain (body (cycle_start graphql_post)))"
    by blast
  then have "run (CallBody (AwaitBody 0 respond_with)) (cycle_start graphql_post) =
        run (respond_with ''{query:{__typename}}'') (drain (body (cycle_start graphql_post)))"
    by (simp only: first chunks)
  then show ?thesis by simp
qed

subsection \<open>Missing URL or method\<close>

text \<open>
  C4: when the URL or the method is missing (undefined or the empty string), the handler
  is not invoked and the response is written with status 500, in both configurations.
\<close>

theorem missing_field_gives_500:
  assumes "falsy (url (req s)) \<or> falsy (http_method (req s))"
  shows "handled (snd (requestListener isProd handle s)) = handled s \<and>
         fst (requestListener isProd handle s) = Fulfilled \<and>
         (\<exists>hs b. res (snd (requestListener isProd handle s)) = res s @ [WriteHead 500 None hs, End b])"
proof -
  from try_block_absent [OF assms] obtain msg where
    "try_block handle s = (Some (Inl (ErrorInstance msg (captureStack s msg))), s)" ..
  then show ?thesis
    by (simp add: requestListener_def catch_block_def stringify_Error Let_def)
qed

theorem missing_field_gives_500_witness:
  "handled (snd (requestListener False (handler_of (Resolve ''x'' ok_init))
       (cycle_start (fresh_request (Some []) (Some ''POST'') [] [])))) = [] \<and>
   (\<exists>hs b. res (snd (requestListener False (handler_of (Resolve ''x'' ok_init))
       (cycle_start (fresh_request (Some []) (Some ''POST'') [] [])))) = [WriteHead 500 None hs, End b])"
  using missing_field_gives_500 [of "cycle_start (fresh_request (Some []) (Some ''POST'') [] [])"
      False "handler_of (Resolve ''x'' ok_init)"]
  by (simp add: cycle_start_def fresh_request_def falsy_def)

subsection \<open>Faults in non-production configuration\<close>

text \<open>
  C5: in non-production configuration a fault of the handler should be answered with
  status 500, the JSON content type and the body \<open>{errors: [payload]}\<close>. At the same
  input as above the head is written, but no body follows and the response is not ended.
\<close>

theorem unserializable_fault_leaves_response_open:
  "res (snd (requestListener False (handler_of (Reject (NotError (JBigInt 1)))) (cycle_start graphql_post))) =
     [WriteHead 500 None (Some [(''content-type'', ''application/json; charset=utf-8'')])]"
  by (simp add: requestListener_def try_block_def catch_block_def JSON_stringify_def
      error_payload_def new_Error_def cycle_start_def node_refuses_def graphql_post_def fresh_request_def)

subsection \<open>Faults in production configuration\<close>



subsection \<open>Side effects of one invocation\<close>




subsection \<open>Laziness of the body accessor\<close>

text \<open>
  C8: the listener starts on a paused stream. When the handler never invokes \<open>body\<close>,
  the request (its chunks, its mode, its listeners) is after the invocation as it was
  before, and the stream has emitted nothing; building the descriptor subscribes to
  nothing. And for every handler: either the request and the emitted events are unchanged,
  or \<open>body\<close> was invoked and the request has gained a listener.
\<close>

theorem stream_untouched_without_body_call:
  assumes "\<not> flowing (req s)"
  shows "((\<forall>d. \<not> invokes_body (handle d)) \<longrightarrow>
            req (snd (requestListener isProd handle s)) = req s \<and>
            emitted (snd (requestListener isProd handle s)) = emitted s) \<and>
         (req (snd (requestListener isProd handle s)) = req s \<and>
          emitted (snd (requestListener isProd handle s)) = emitted s \<or>
          length (listeners (req s)) < length (listeners (req (snd (requestListener isProd handle s)))))"
proof (cases "falsy (url (req s)) \<or> falsy (http_method (req s))")
  case True
  from try_block_absent [OF True, of handle] obtain msg where
    "try_block handle s = (Some (Inl (ErrorInstance msg (captureStack s msg))), s)" ..
  then show ?thesis
    by (simp add: requestListener_stream)
next
  case False
  then obtain u m where um: "url (req s) = Some u" "u \<noteq> []" "http_method (req s) = Some m" "m \<noteq> []"
    by (rule present_fields)
  let ?p = "handle (descriptor (req s) u m)"
  have lazy: "snd (run ?p s) = s" if "\<forall>d. \<not> invokes_body (handle d)"
    using that assms by (simp add: run_without_body)
  from run_paused [OF assms, of ?p] lazy show ?thesis
    by (auto simp: requestListener_stream try_block_present_stream [OF um])
qed

theorem stream_untouched_without_body_call_witness:
  "req (snd (requestListener False (handler_of (Resolve ''x'' ok_init)) (cycle_start graphql_post))) =
     graphql_post \<and>
   emitted (snd (requestListener False (handler_of (Resolve ''x'' ok_init)) (cycle_start graphql_post))) = []"
proof -
  have "\<not> flowing (req (cycle_start graphql_post))"
    by (simp add: cycle_start_def node_refuses_def graphql_post_def fresh_request_def)
  moreover have "\<forall>d. \<not> invokes_body (handler_of (Resolve ''x'' ok_init) d)"
    by (auto elim: invokes_body.cases)
  ultimately show ?thesis
    using stream_untouched_without_body_call [of "cycle_start graphql_post"
        "handler_of (Resolve ''x'' ok_init)" False]
    by (simp add: cycle_start_def)
qed

subsection \<open>The context of the descriptor\<close>

text \<open>
  C9: the listener passes at most one request to the handler, and the \<open>context\<close> field
  of every request it passes is \<open>undefined\<close>. The descriptor has no parameter for a
  context, so none chosen at \<open>createHandler\<close> can reach the handler.
\<close>

theorem context_is_undefined:
  "\<exists>ds. handled (snd (requestListener isProd handle s)) = handled s @ ds \<and>
        length ds \<le> 1 \<and> (\<forall>d \<in> set ds. rq_context d = JUndefined)"
proof (cases "falsy (url (req s)) \<or> falsy (http_method (req s))")
  case True
  from try_block_absent [OF True] obtain msg where
    "try_block handle s = (Some (Inl (ErrorInstance msg (captureStack s msg))), s)" ..
  then have "handled (snd (requestListener isProd handle s)) = handled s @ []"
    by (simp add: requestListener_handled)
  then show ?thesis by (intro exI [of _ "[]"]) simp
next
  case False
  then obtain u m where um: "url (req s) = Some u" "u \<noteq> []" "http_method (req s) = Some m" "m \<noteq> []"
    by (auto simp: falsy_def split: option.splits)
  have "handled (snd (try_block handle s)) = handled s @ [descriptor (req s) u m]"
    by (simp add: try_block_present [OF um] split: option.split outcome.split)
  then have "handled (snd (requestListener isProd handle s)) = handled s @ [descriptor (req s) u m]"
    by (simp add: requestListener_handled)
  then show ?thesis
    by (intro exI [of _ "[descriptor (req s) u m]"]) (simp add: descriptor_def)
qed

theorem context_is_undefined_witness:
  "map rq_context (handled (snd (requestListener False (handler_of (Resolve ''x'' ok_init))
       (cycle_start graphql_post)))) = [JUndefined]"
proof -
  have h: "handled (snd (requestListener False (handler_of (Resolve ''x'' ok_init))
       (cycle_start graphql_post))) = [descriptor graphql_post ''/graphql'' ''POST'']"
    by (simp add: requestListener_def try_block_def cycle_start_def node_refuses_def graphql_post_def
        fresh_request_def)
  from context_is_undefined [of False "handler_of (Resolve ''x'' ok_init)" "cycle_start graphql_post"]
  show ?thesis unfolding h by (auto simp: cycle_start_def)
qed

subsection \<open>The production flag\<close>



end
